theory Spec2Isabelle
  imports Main
begin

section \<open>Key prefixing (template/util.go)\<close>

subsection \<open>The standard library's path.Join\<close>

text \<open>
  \<open>appendPrefix\<close> calls Go's \<open>path.Join\<close>, which joins its arguments with a slash and
  then applies \<open>path.Clean\<close>. Strings are byte sequences, as in Go. \<open>Clean\<close> keeps a
  write buffer \<open>out\<close> (the bytes written so far), reads the rest of the path, and
  remembers in \<open>dotdot\<close> the length of the prefix of \<open>out\<close> that a \<open>..\<close> element
  must not remove.
\<close>

text \<open>The inner loop of the \<open>..\<close> case: \<open>out.w--\<close>, then keep dropping bytes while
  \<open>out.w > dotdot\<close> and the byte just dropped is not a slash.\<close>

function backtrack :: "nat \<Rightarrow> string \<Rightarrow> string" where
  "backtrack dotdot out =
     (let out' = butlast out in
      if length out' > dotdot \<and> last out \<noteq> CHR ''/'' then backtrack dotdot out' else out')"
  by pat_completeness auto
termination
  by (relation "measure (\<lambda>(dotdot, out). length out)") auto

text \<open>\<open>r + k == n || path[r + k] == '/'\<close> on the bytes left after position \<open>r + k\<close>.\<close>

definition ends_element :: "string \<Rightarrow> bool" where
  "ends_element cs = (case cs of [] \<Rightarrow> True | d # _ \<Rightarrow> d = CHR ''/'')"

function clean_loop :: "bool \<Rightarrow> string \<Rightarrow> string \<Rightarrow> nat \<Rightarrow> string" where
  "clean_loop rooted [] out dotdot = out"
| "clean_loop rooted (c # cs) out dotdot =
     (if c = CHR ''/'' then clean_loop rooted cs out dotdot
      else if c = CHR ''.'' \<and> ends_element cs then clean_loop rooted cs out dotdot
      else if c = CHR ''.'' \<and> hd cs = CHR ''.'' \<and> ends_element (tl cs) then
        (if length out > dotdot then clean_loop rooted (tl cs) (backtrack dotdot out) dotdot
         else if \<not> rooted then
           (let out' = (if length out > 0 then out @ ''/'' else out) @ ''..''
            in clean_loop rooted (tl cs) out' (length out'))
         else clean_loop rooted (tl cs) out dotdot)
      else
        (let out' = (if rooted \<and> length out \<noteq> 1 \<or> \<not> rooted \<and> length out \<noteq> 0
                     then out @ ''/'' else out)
         in clean_loop rooted (dropWhile (\<lambda>d. d \<noteq> CHR ''/'') cs)
              (out' @ c # takeWhile (\<lambda>d. d \<noteq> CHR ''/'') cs) dotdot))"
  by pat_completeness auto
termination
  by (relation "measure (\<lambda>(rooted, rest, out, dotdot). length rest)")
     (auto simp: less_Suc_eq_le length_dropWhile_le intro: le_trans [OF diff_le_self])

definition Clean :: "string \<Rightarrow> string" where
  "Clean path =
     (if path = [] then ''.''
      else
        (let rooted = (hd path = CHR ''/'');
             out = (if rooted then clean_loop True (tl path) ''/'' 1
                    else clean_loop False path [] 0)
         in if out = [] then ''.'' else out))"

text \<open>\<open>strings.Join(elems, "/")\<close>.\<close>

fun join_slash :: "string list \<Rightarrow> string" where
  "join_slash [] = []"
| "join_slash [e] = e"
| "join_slash (e # es) = e @ ''/'' @ join_slash es"

text \<open>\<open>path.Join\<close>: the elements from the first non-empty one on, joined and cleaned;
  the empty string when every element is empty.\<close>

definition Join :: "string list \<Rightarrow> string" where
  "Join elem =
     (case dropWhile (\<lambda>e. e = []) elem of
        [] \<Rightarrow> []
      | es \<Rightarrow> Clean (join_slash es))"

subsection \<open>appendPrefix\<close>

text \<open>
  \<open>s := make([]string, len(keys)); for i, k := range keys { s[i] = path.Join(prefix, k) }\<close>:
  a slice of empty strings of the length of \<open>keys\<close>, written index by index. Every index
  of the loop is in range, so no write panics.
\<close>

fun appendPrefix_loop :: "string \<Rightarrow> nat \<Rightarrow> string list \<Rightarrow> string list \<Rightarrow> string list" where
  "appendPrefix_loop prefix i [] s = s"
| "appendPrefix_loop prefix i (k # ks) s =
     appendPrefix_loop prefix (Suc i) ks (s[i := Join [prefix, k]])"

definition appendPrefix :: "string \<Rightarrow> string list \<Rightarrow> string list" where
  "appendPrefix prefix keys = appendPrefix_loop prefix 0 keys (replicate (length keys) [])"


section \<open>The resource worker (the goroutine started by run)\<close>

subsection \<open>Data and environment\<close>

text \<open>
  Errors are compared by identity in the source (\<open>err != backendErrors.ErrNilConfig\<close>):
  the sentinel is one distinguished value, every other error is identified by its message.
\<close>

datatype error = ErrNilConfig | ErrOther string

text \<open>A connected backend client (\<open>template.Backend\<close>): its name and the connection it
  holds, identified by a number.\<close>

record Backend =
  Name :: string
  conn :: nat

text \<open>
  A backend configuration is used through \<open>config.Connect()\<close> only, whose result and
  duration are decided by the outside world and may differ from one call to the next. It
  is modelled by its successive calls, counted from 0: \<open>Connect config n\<close> is the pair
  \<open>(b, err)\<close> that call number \<open>n\<close> returns, and \<open>took config n\<close> is the time that
  call takes, in milliseconds.
\<close>

record BackendConfig =
  Connect :: "nat \<Rightarrow> Backend \<times> error option"
  took :: "nat \<Rightarrow> nat"

text \<open>
  The worker's clock counts milliseconds from the start of the goroutine. Time passes in
  the calls of \<open>Connect\<close>, as long as each call takes, in \<open>time.Sleep\<close>, and in
  \<open>Monitor\<close>; so the instants at which the \<open>select\<close> is reached are any that the
  durations of the calls allow. The context is given by the instant at which it is
  cancelled, if ever: \<open>ctx.Done()\<close> is ready from that instant on.
\<close>

type_synonym Context = "nat option"

definition Done :: "Context \<Rightarrow> nat \<Rightarrow> bool" where
  "Done ctx t = (case ctx of None \<Rightarrow> False | Some c \<Rightarrow> c \<le> t)"

text \<open>What the worker does to the outside, in order, each with the clock reading.\<close>

datatype event =
    EvConnect Backend "error option"    \<comment> \<open>\<open>config.Connect()\<close> is called, and returns this pair\<close>
  | EvLogError string error             \<comment> \<open>\<open>log.WithFields({"backend": name}).Error(err)\<close>\<close>
  | EvSleep nat                         \<comment> \<open>\<open>time.Sleep\<close> of so many milliseconds\<close>
  | EvClose "Backend list"              \<comment> \<open>\<open>backendList.Close()\<close> on this list\<close>
  | EvNewResource "Backend list" "error option"  \<comment> \<open>\<open>template.NewResource\<close> and its error\<close>
  | EvLogBuildError error               \<comment> \<open>\<open>log.Error(err.Error())\<close>\<close>
  | EvMonitor "Backend list"            \<comment> \<open>\<open>t.Monitor(ctx)\<close> returned\<close>
  | EvWaitDone                          \<comment> \<open>the deferred \<open>wait.Done()\<close>\<close>

record wstate =
  backendList :: "Backend list"
  now :: nat
  trace :: "(nat \<times> event) list"

definition emit :: "event \<Rightarrow> wstate \<Rightarrow> wstate" where
  "emit e st = st\<lparr>trace := trace st @ [(now st, e)]\<rparr>"

text \<open>Time passing. A call of \<open>Connect\<close> and a sleep are stamped with the clock at
  which they begin.\<close>

definition pass :: "nat \<Rightarrow> wstate \<Rightarrow> wstate" where
  "pass d st = st\<lparr>now := now st + d\<rparr>"

definition sleep :: "nat \<Rightarrow> wstate \<Rightarrow> wstate" where
  "sleep d st = pass d (emit (EvSleep d) st)"

subsection \<open>The connect phase\<close>

datatype loop_exit = Break | Return

text \<open>
  The loop labelled \<open>retryloop\<close> for one backend configuration; \<open>n\<close> counts the calls of
  \<open>Connect\<close> made so far. The \<open>select\<close> takes the \<open>ctx.Done()\<close> case whenever it is ready
  and the \<open>default\<close> case otherwise. The loop need not end: a configuration that fails
  forever under a context that is never cancelled gives \<open>None\<close>.
\<close>

partial_function (option) retryloop ::
  "Context \<Rightarrow> BackendConfig \<Rightarrow> nat \<Rightarrow> wstate \<Rightarrow> (loop_exit \<times> wstate) option" where
  "retryloop ctx config n st =
     (if Done ctx (now st) then
        Some (Return, emit (EvClose (backendList st)) st)
      else
        (let b = fst (Connect config n); err = snd (Connect config n);
             st1 = pass (took config n) (emit (EvConnect b err) st)
         in case err of
              None \<Rightarrow> Some (Break, st1\<lparr>backendList := backendList st1 @ [b]\<rparr>)
            | Some e \<Rightarrow>
                if e \<noteq> ErrNilConfig then
                  retryloop ctx config (Suc n) (sleep 2000 (emit (EvLogError (Name b) e) st1))
                else Some (Break, st1)))"

declare retryloop.simps [code]

text \<open>\<open>for _, config := range v.Backend.GetBackends()\<close>.\<close>

fun connect_all ::
  "Context \<Rightarrow> BackendConfig list \<Rightarrow> wstate \<Rightarrow> (loop_exit \<times> wstate) option" where
  "connect_all ctx [] st = Some (Break, st)"
| "connect_all ctx (config # configs) st =
     (case retryloop ctx config 0 st of
        None \<Rightarrow> None
      | Some (Return, st') \<Rightarrow> Some (Return, st')
      | Some (Break, st') \<Rightarrow> connect_all ctx configs st')"

subsection \<open>The whole worker\<close>

text \<open>
  A resource as the worker uses it: its template definitions and the list that
  \<open>v.Backend.GetBackends()\<close> returns. The template engine is outside: \<open>NewResource\<close> gives
  the error of \<open>template.NewResource\<close> (if any), and \<open>Monitor\<close> gives, from the instant at
  which \<open>t.Monitor(ctx)\<close> is called, how long it takes to return, or \<open>None\<close> if it never
  does.
\<close>

record 't resource =
  Template :: "'t list"
  Backend :: "BackendConfig list"

record 't engine =
  NewResource :: "Backend list \<Rightarrow> 't list \<Rightarrow> error option"
  Monitor :: "Context \<Rightarrow> nat \<Rightarrow> nat option"

datatype worker_exit = Cancelled | BuildFailed | MonitorReturned

definition start :: wstate where
  "start = \<lparr>backendList = [], now = 0, trace = []\<rparr>"

text \<open>
  The body of the goroutine. \<open>wait.Done()\<close> is deferred first and so runs last. On
  cancellation in the connect phase the list is closed by hand and the function returns
  before \<open>defer backendList.Close()\<close> is reached; past the connect phase the deferred
  close runs on both returns.
\<close>

definition worker ::
  "'t engine \<Rightarrow> Context \<Rightarrow> 't resource \<Rightarrow> (worker_exit \<times> wstate) option" where
  "worker eng ctx v =
     (case connect_all ctx (Backend v) start of
        None \<Rightarrow> None
      | Some (Return, st) \<Rightarrow> Some (Cancelled, emit EvWaitDone st)
      | Some (Break, st) \<Rightarrow>
          (let deferred = backendList st;
               err = NewResource eng (backendList st) (Template v);
               st1 = emit (EvNewResource (backendList st) err) st
           in case err of
                Some e \<Rightarrow>
                  Some (BuildFailed,
                    emit EvWaitDone (emit (EvClose deferred) (emit (EvLogBuildError e) st1)))
              | None \<Rightarrow>
                  (case Monitor eng ctx (now st1) of
                     None \<Rightarrow> None
                   | Some d \<Rightarrow>
                       Some (MonitorReturned,
                         emit EvWaitDone (emit (EvClose deferred)
                           (emit (EvMonitor (backendList st)) (pass d st1)))))))"

text \<open>The clients obtained by successful connects, and the lists closed, in trace order.\<close>

fun obtained :: "(nat \<times> event) list \<Rightarrow> Backend list" where
  "obtained [] = []"
| "obtained ((t, EvConnect b None) # tr) = b # obtained tr"
| "obtained (_ # tr) = obtained tr"

fun closes :: "(nat \<times> event) list \<Rightarrow> Backend list list" where
  "closes [] = []"
| "closes ((t, EvClose bl) # tr) = bl # closes tr"
| "closes (_ # tr) = closes tr"


section \<open>Loading the configuration\<close>

text \<open>
  The configuration file structure. A resource read from a file is the same value the
  worker later runs on.
\<close>

record 't configuration =
  LogLevel :: string
  LogFormat :: string
  IncludeDir :: string
  Resource :: "'t resource list"

text \<open>
  Everything \<open>newConfiguration\<close> asks of the outside: the file system
  (\<open>ioutil.ReadFile\<close>, \<open>ioutil.ReadDir\<close>, which lists the names of a directory in
  order), the process environment (\<open>os.ExpandEnv\<close>), the TOML decoder, once for each
  of the two types it is used at, and the global logger of the package \<open>log\<close>.
  \<open>toml.Unmarshal(buf, &x)\<close> fills a zero value \<open>x\<close> and returns an error: the
  decoder is given by the value it leaves in \<open>x\<close> and that error. The logger is
  a state \<open>'lg\<close> that the functions of \<open>log\<close> change: \<open>log.SetLevel\<close> (which also
  returns an error), \<open>log.SetFormatter\<close>, \<open>log.Error\<close>, and
  \<open>log.WithFields({"path": p}).Info(msg)\<close>.
\<close>

record ('t, 'lg) system =
  ReadFile :: "string \<Rightarrow> error + string"
  ReadDir :: "string \<Rightarrow> error + string list"
  ExpandEnv :: "string \<Rightarrow> string"
  Unmarshal_configuration :: "string \<Rightarrow> 't configuration \<times> error option"
  Unmarshal_resource :: "string \<Rightarrow> 't resource \<times> error option"
  log_SetLevel :: "string \<Rightarrow> 'lg \<Rightarrow> error option \<times> 'lg"
  log_SetFormatter :: "string \<Rightarrow> 'lg \<Rightarrow> 'lg"
  log_Error :: "error \<Rightarrow> 'lg \<Rightarrow> 'lg"
  log_Info :: "string \<Rightarrow> string \<Rightarrow> 'lg \<Rightarrow> 'lg"

text \<open>\<open>configureLogger\<close>.\<close>

definition configureLogger :: "('t, 'lg) system \<Rightarrow> 't configuration \<Rightarrow> 'lg \<Rightarrow> 'lg" where
  "configureLogger sys c lg =
     (let lg1 =
        (if LogLevel c \<noteq> [] then
           (case log_SetLevel sys (LogLevel c) lg of
              (Some err, lg') \<Rightarrow> log_Error sys err lg'
            | (None, lg') \<Rightarrow> lg')
         else lg)
      in if LogFormat c \<noteq> [] then log_SetFormatter sys (LogFormat c) lg1 else lg1)"

text \<open>\<open>readFileAndExpandEnv\<close>: on an error the callers use the error only.\<close>

definition readFileAndExpandEnv :: "('t, 'lg) system \<Rightarrow> string \<Rightarrow> error + string" where
  "readFileAndExpandEnv sys path =
     (case ReadFile sys path of
        Inl err \<Rightarrow> Inl err
      | Inr buf \<Rightarrow> Inr (ExpandEnv sys buf))"

text \<open>\<open>strings.HasSuffix\<close>.\<close>

definition HasSuffix :: "string \<Rightarrow> string \<Rightarrow> bool" where
  "HasSuffix s suffix \<longleftrightarrow>
     length s \<ge> length suffix \<and> drop (length s - length suffix) s = suffix"

text \<open>
  The loop over the directory entries. \<open>filepath.Join\<close> is \<open>path.Join\<close> where the
  separator is a slash. The result is the pair the function returns, and the logger.
\<close>

fun include_loop ::
  "('t, 'lg) system \<Rightarrow> string list \<Rightarrow> 't configuration \<Rightarrow> 'lg \<Rightarrow>
     ('t configuration \<times> error option) \<times> 'lg" where
  "include_loop sys [] c lg = ((c, None), lg)"
| "include_loop sys (name # files) c lg =
     (if HasSuffix name ''.toml'' then
        (let fp = Join [IncludeDir c, name];
             lg1 = log_Info sys fp ''Loading resource configuration'' lg
         in case readFileAndExpandEnv sys fp of
              Inl err \<Rightarrow> ((c, Some err), lg1)
            | Inr buf \<Rightarrow>
                (case Unmarshal_resource sys buf of
                   (r, Some err) \<Rightarrow> ((c, Some err), lg1)
                 | (r, None) \<Rightarrow>
                     include_loop sys files
                       (if length (Template r) > 0 then c\<lparr>Resource := Resource c @ [r]\<rparr> else c)
                       lg1))
      else include_loop sys files c lg)"

definition zero_configuration :: "'t configuration" where
  "zero_configuration = \<lparr>LogLevel = [], LogFormat = [], IncludeDir = [], Resource = []\<rparr>"

definition newConfiguration ::
  "('t, 'lg) system \<Rightarrow> string \<Rightarrow> 'lg \<Rightarrow> ('t configuration \<times> error option) \<times> 'lg" where
  "newConfiguration sys path lg =
     (case readFileAndExpandEnv sys path of
        Inl err \<Rightarrow> ((zero_configuration, Some err), lg)
      | Inr buf \<Rightarrow>
          (case Unmarshal_configuration sys buf of
             (c, Some err) \<Rightarrow> ((c, Some err), lg)
           | (c, None) \<Rightarrow>
               (let lg1 = configureLogger sys c lg
                in if IncludeDir c \<noteq> [] then
                     (case ReadDir sys (IncludeDir c) of
                        Inl err \<Rightarrow> ((c, Some err), lg1)
                      | Inr files \<Rightarrow> include_loop sys files c lg1)
                   else ((c, None), lg1))))"

section \<open>Decrypting a value (template/util.go)\<close>

text \<open>
  \<open>decrypt\<close> chains three readers of the standard and the crypto libraries. A reader is
  given by what reading it to the end yields: the bytes read and the error that ended
  the reading, if it was not the end of the data. The libraries are parameters:
  \<open>base64_NewDecoder\<close> never fails itself (bad input shows when the decoder is read),
  \<open>openpgp_ReadMessage\<close> returns an error or the reader \<open>md.UnverifiedBody\<close>, and
  \<open>gzip_NewReader\<close> returns an error or the decompressing reader. \<open>ioutil.ReadAll\<close>
  returns the bytes of a reader and its error.
\<close>

type_synonym reader = "string \<times> error option"

record 'k codecs =
  base64_NewDecoder :: "string \<Rightarrow> reader"
  openpgp_ReadMessage :: "reader \<Rightarrow> 'k \<Rightarrow> error + reader"
  gzip_NewReader :: "reader \<Rightarrow> error + reader"

definition ReadAll :: "reader \<Rightarrow> string \<times> error option" where
  "ReadAll r = r"

definition decrypt :: "'k codecs \<Rightarrow> string \<Rightarrow> 'k \<Rightarrow> string \<times> error option" where
  "decrypt lib data entityList =
     (let decoder = base64_NewDecoder lib data in
      case openpgp_ReadMessage lib decoder entityList of
        Inl err \<Rightarrow> (data, Some err)
      | Inr UnverifiedBody \<Rightarrow>
          (case gzip_NewReader lib UnverifiedBody of
             Inl err \<Rightarrow> (data, Some err)
           | Inr gzReader \<Rightarrow>
               (case ReadAll gzReader of
                  (bytes, Some err) \<Rightarrow> (data, Some err)
                | (bytes, None) \<Rightarrow> (bytes, None))))"

section \<open>Describing runs of the worker\<close>

text \<open>
  The events of one failed attempt on a configuration, begun at clock \<open>t\<close>: the call
  that returns \<open>(b, Some e)\<close>, and when it has returned the log entry with the name of
  \<open>b\<close> and the error, and the sleep of two seconds.
\<close>

definition failed_attempt :: "BackendConfig \<Rightarrow> nat \<Rightarrow> nat \<Rightarrow> (nat \<times> event) list" where
  "failed_attempt config n t =
     (case Connect config n of
        (b, Some e) \<Rightarrow>
          [(t, EvConnect b (Some e)),
           (t + took config n, EvLogError (Name b) e),
           (t + took config n, EvSleep 2000)]
      | (b, None) \<Rightarrow> [])"

text \<open>
  The clock at which attempt number \<open>j\<close> of a retry loop begins, when the loop begins
  at clock \<open>t\<close> with call number \<open>n\<close> and all attempts before fail: each attempt
  before took its call and the two seconds of sleep.
\<close>

definition attempt_at :: "BackendConfig \<Rightarrow> nat \<Rightarrow> nat \<Rightarrow> nat \<Rightarrow> nat" where
  "attempt_at config n t j = t + 2000 * j + (\<Sum>i<j. took config (n + i))"

text \<open>\<open>K\<close> failed attempts in a row, from call number \<open>n\<close> at clock \<open>t\<close>.\<close>

definition retries :: "BackendConfig \<Rightarrow> nat \<Rightarrow> nat \<Rightarrow> nat \<Rightarrow> (nat \<times> event) list" where
  "retries config n t K =
     concat (map (\<lambda>j. failed_attempt config (n + j) (attempt_at config n t j)) [0..<K])"

text \<open>A call of \<open>Connect\<close> that fails with an error other than the sentinel.\<close>

definition fails :: "Backend \<times> error option \<Rightarrow> bool" where
  "fails r \<longleftrightarrow> snd r \<noteq> None \<and> snd r \<noteq> Some ErrNilConfig"

text \<open>
  What a part of the connect phase adds, from state \<open>st\<close> to state \<open>st'\<close>: events
  \<open>ev\<close>, the clients obtained in them appended to the list, and no close but, on
  \<open>Return\<close>, one of the whole list as the last event.
\<close>

definition phase_ok :: "wstate \<Rightarrow> loop_exit \<Rightarrow> wstate \<Rightarrow> bool" where
  "phase_ok st x st' \<longleftrightarrow>
     (\<exists>ev. trace st' = trace st @ ev \<and> backendList st' = backendList st @ obtained ev \<and>
        (if x = Return
         then \<exists>ev'. ev = ev' @ [(now st', EvClose (backendList st'))] \<and> closes ev' = []
         else closes ev = []))"

text \<open>Configurations for examples: one that is refused forever, one that is refused \<open>K\<close>
  times and then connects, one of a backend type that is not configured (the calls of
  these return at once), and one that connects at the first call, which takes \<open>d\<close>
  milliseconds.\<close>

definition refusing :: "string \<Rightarrow> BackendConfig" where
  "refusing name =
     \<lparr>Connect = (\<lambda>n. (\<lparr>Name = name, conn = 0\<rparr>, Some (ErrOther ''connection refused''))),
      took = (\<lambda>n. 0)\<rparr>"

definition flaky :: "string \<Rightarrow> nat \<Rightarrow> nat \<Rightarrow> BackendConfig" where
  "flaky name K c =
     \<lparr>Connect = (\<lambda>n.
        if n < K then (\<lparr>Name = name, conn = 0\<rparr>, Some (ErrOther ''connection refused''))
        else (\<lparr>Name = name, conn = c\<rparr>, None)),
      took = (\<lambda>n. 0)\<rparr>"

definition unconfigured :: BackendConfig where
  "unconfigured = \<lparr>Connect = (\<lambda>n. (\<lparr>Name = [], conn = 0\<rparr>, Some ErrNilConfig)), took = (\<lambda>n. 0)\<rparr>"

definition slow :: "string \<Rightarrow> nat \<Rightarrow> nat \<Rightarrow> BackendConfig" where
  "slow name c d = \<lparr>Connect = (\<lambda>n. (\<lparr>Name = name, conn = c\<rparr>, None)), took = (\<lambda>n. d)\<rparr>"

definition engine_ok :: "unit engine" where
  "engine_ok = \<lparr>NewResource = (\<lambda>bl ts. None), Monitor = (\<lambda>ctx t. Some 500)\<rparr>"

definition engine_bad :: "unit engine" where
  "engine_bad =
     \<lparr>NewResource = (\<lambda>bl ts. Some (ErrOther ''empty src template'')),
      Monitor = (\<lambda>ctx t. None)\<rparr>"

definition two_backends :: "unit resource" where
  "two_backends = \<lparr>Template = [()], Backend = [flaky ''etcd'' 1 7, refusing ''consul'']\<rparr>"

definition one_backend :: "unit resource" where
  "one_backend = \<lparr>Template = [()], Backend = [unconfigured, flaky ''etcd'' 1 7]\<rparr>"

definition slow_backends :: "unit resource" where
  "slow_backends = \<lparr>Template = [()], Backend = [slow ''a'' 1 150, slow ''b'' 2 150]\<rparr>"

section \<open>Describing a load of the configuration\<close>

text \<open>What reading and decoding one file of the include directory gives: the error of
  the read or of the decoder, or the resource decoded.\<close>

definition load_one :: "('t, 'lg) system \<Rightarrow> string \<Rightarrow> string \<Rightarrow> error + 't resource" where
  "load_one sys dir name =
     (case readFileAndExpandEnv sys (Join [dir, name]) of
        Inl err \<Rightarrow> Inl err
      | Inr buf \<Rightarrow>
          (case Unmarshal_resource sys buf of
             (r, Some err) \<Rightarrow> Inl err
           | (r, None) \<Rightarrow> Inr r))"

text \<open>Of a list of directory entries, the resources with at least one template that the
  entries named \<open>*.toml\<close> decode to, in order.\<close>

fun included :: "('t, 'lg) system \<Rightarrow> string \<Rightarrow> string list \<Rightarrow> 't resource list" where
  "included sys dir [] = []"
| "included sys dir (name # files) =
     (if HasSuffix name ''.toml'' then
        (case load_one sys dir name of
           Inr r \<Rightarrow> if Template r \<noteq> [] then r # included sys dir files
                    else included sys dir files
         | Inl err \<Rightarrow> included sys dir files)
      else included sys dir files)"

text \<open>The logger after the log entries for the entries named \<open>*.toml\<close>, in order.\<close>

definition log_infos :: "('t, 'lg) system \<Rightarrow> string \<Rightarrow> string list \<Rightarrow> 'lg \<Rightarrow> 'lg" where
  "log_infos sys dir files lg =
     foldl (\<lambda>lg name. log_Info sys (Join [dir, name]) ''Loading resource configuration'' lg)
       lg (filter (\<lambda>name. HasSuffix name ''.toml'') files)"

text \<open>
  An installation for examples. The logger is a record of the level and the formatter
  in force and of the entries written; a level is set when it is one of the six level
  names. The main file sets a log level, a log format and an include directory, and
  declares one resource with no template. The include directory lists the entries
  \<open>files\<close>; of the files in it, \<open>a.toml\<close> holds a resource with one template,
  \<open>b.toml\<close> a resource with no template, and \<open>c.toml\<close> is malformed. The contents of
  the files are named, and the decoder is given on these names.
\<close>

datatype log_entry =
    LogError error
  | LogInfo string string   \<comment> \<open>the field \<open>path\<close> and the message\<close>

record logger =
  Level :: string
  Formatter :: string
  entries :: "log_entry list"

definition example_main :: "unit configuration" where
  "example_main =
     \<lparr>LogLevel = ''debug'', LogFormat = ''json'', IncludeDir = ''/etc/remco/resource.d'',
      Resource = [\<lparr>Template = [], Backend = []\<rparr>]\<rparr>"

definition example_system :: "string list \<Rightarrow> (unit, logger) system" where
  "example_system files =
     \<lparr>ReadFile = (\<lambda>path.
        if path = ''/etc/remco/config'' then Inr ''main''
        else if path = ''/etc/remco/resource.d/a.toml'' then Inr ''one template''
        else if path = ''/etc/remco/resource.d/b.toml'' then Inr ''no template''
        else if path = ''/etc/remco/resource.d/c.toml'' then Inr ''malformed''
        else Inl (ErrOther ''no such file or directory'')),
      ReadDir = (\<lambda>dir.
        if dir = ''/etc/remco/resource.d''
        then Inr files
        else Inl (ErrOther ''no such file or directory'')),
      ExpandEnv = (\<lambda>buf. buf),
      Unmarshal_configuration = (\<lambda>buf.
        if buf = ''main'' then (example_main, None)
        else (zero_configuration, Some (ErrOther ''toml: syntax error''))),
      Unmarshal_resource = (\<lambda>buf.
        if buf = ''one template'' then (\<lparr>Template = [()], Backend = []\<rparr>, None)
        else if buf = ''no template'' then (\<lparr>Template = [], Backend = []\<rparr>, None)
        else (\<lparr>Template = [], Backend = []\<rparr>, Some (ErrOther ''toml: syntax error''))),
      log_SetLevel = (\<lambda>level lg.
        if level \<in> set [''panic'', ''fatal'', ''error'', ''warn'', ''info'', ''debug'']
        then (None, lg\<lparr>Level := level\<rparr>)
        else (Some (ErrOther ''not a valid logrus Level''), lg)),
      log_SetFormatter = (\<lambda>format lg. lg\<lparr>Formatter := format\<rparr>),
      log_Error = (\<lambda>err lg. lg\<lparr>entries := entries lg @ [LogError err]\<rparr>),
      log_Info = (\<lambda>path msg lg. lg\<lparr>entries := entries lg @ [LogInfo path msg]\<rparr>)\<rparr>"

definition example_logger :: logger where
  "example_logger = \<lparr>Level = ''info'', Formatter = ''text'', entries = []\<rparr>"

section \<open>The encryption scheme that decrypt targets\<close>

text \<open>
  The sending side, which is not part of the program: a value is compressed with gzip,
  encrypted to a public key as an OpenPGP message, and encoded in base64.
  \<open>holds_key kr pk\<close> says that the keyring \<open>kr\<close> holds the private key of \<open>pk\<close>.
\<close>

record ('k, 'pk) scheme =
  base64_encode :: "string \<Rightarrow> string"
  openpgp_encrypt :: "'pk \<Rightarrow> string \<Rightarrow> string"
  gzip_compress :: "string \<Rightarrow> string"
  holds_key :: "'k \<Rightarrow> 'pk \<Rightarrow> bool"

definition encrypt_for :: "('k, 'pk) scheme \<Rightarrow> 'pk \<Rightarrow> string \<Rightarrow> string" where
  "encrypt_for sch pk P = base64_encode sch (openpgp_encrypt sch pk (gzip_compress sch P))"

text \<open>
  What the libraries promise for data made by the sending side: the decoder reads back
  what was encoded, without error; \<open>ReadMessage\<close> opens a message with a keyring that
  holds the key, giving the body that was encrypted, and fails with any other keyring;
  the gzip reader gives back what was compressed.
\<close>

definition implements :: "'k codecs \<Rightarrow> ('k, 'pk) scheme \<Rightarrow> bool" where
  "implements lib sch \<longleftrightarrow>
     (\<forall>x. base64_NewDecoder lib (base64_encode sch x) = (x, None)) \<and>
     (\<forall>kr pk m. holds_key sch kr pk \<longrightarrow>
        openpgp_ReadMessage lib (openpgp_encrypt sch pk m, None) kr = Inr (m, None)) \<and>
     (\<forall>kr pk m. \<not> holds_key sch kr pk \<longrightarrow>
        (\<exists>err. openpgp_ReadMessage lib (openpgp_encrypt sch pk m, None) kr = Inl err)) \<and>
     (\<forall>x. gzip_NewReader lib (gzip_compress sch x, None) = Inr (x, None))"

text \<open>
  Small stand-ins for the libraries, for examples: each layer marks its data with a tag,
  an encrypted message names the key it is for, and a keyring is the list of the keys
  it holds. A reader that has failed passes its error on.
\<close>

definition strip_tag :: "string \<Rightarrow> string \<Rightarrow> string option" where
  "strip_tag tag s = (if take (length tag) s = tag then Some (drop (length tag) s) else None)"

definition toy_codecs :: "char list codecs" where
  "toy_codecs =
     \<lparr>base64_NewDecoder = (\<lambda>data.
        case strip_tag ''b64:'' data of
          Some x \<Rightarrow> (x, None)
        | None \<Rightarrow> ([], Some (ErrOther ''illegal base64 data''))),
      openpgp_ReadMessage = (\<lambda>r kr.
        case snd r of
          Some err \<Rightarrow> Inl err
        | None \<Rightarrow>
            (case strip_tag ''pgp:'' (fst r) of
               Some (k # m) \<Rightarrow>
                 if k \<in> set kr then Inr (m, None) else Inl (ErrOther ''openpgp: incorrect key'')
             | _ \<Rightarrow> Inl (ErrOther ''openpgp: invalid data''))),
      gzip_NewReader = (\<lambda>r.
        case strip_tag ''gz:'' (fst r) of
          Some x \<Rightarrow> Inr (x, snd r)
        | None \<Rightarrow> Inl (ErrOther ''gzip: invalid header''))\<rparr>"

definition toy_scheme :: "(char list, char) scheme" where
  "toy_scheme =
     \<lparr>base64_encode = (\<lambda>x. ''b64:'' @ x),
      openpgp_encrypt = (\<lambda>pk m. ''pgp:'' @ pk # m),
      gzip_compress = (\<lambda>x. ''gz:'' @ x),
      holds_key = (\<lambda>kr pk. pk \<in> set kr)\<rparr>"

section \<open>The supervisor (run) and its goroutines\<close>

text \<open>
  \<open>run\<close> starts one goroutine per resource, then a goroutine that waits for all of them
  and closes the channel \<open>done\<close>, and then blocks in a \<open>select\<close> on \<open>stop\<close> and
  \<open>done\<close>. The goroutines are interleaved: the model is a state with a program
  counter for each of them, and a step function that runs one action of one of them,
  or nothing (\<open>None\<close>) when the action cannot run in that state, because it is not the
  goroutine's next one or because it blocks.

  Of a worker only the end matters here: it closes its clients (the last thing a worker
  does before the deferred \<open>wait.Done()\<close>, whichever way it exits) and then runs
  \<open>wait.Done()\<close>. With each worker the state keeps the number of times its
  \<open>backendList.Close()\<close> has run.
\<close>

datatype worker_phase =
    Working      \<comment> \<open>started, clients not yet closed\<close>
  | Released     \<comment> \<open>\<open>backendList.Close()\<close> has run\<close>
  | Joined       \<comment> \<open>\<open>wait.Done()\<close> has run\<close>

record worker_state =
  phase :: worker_phase
  releases :: nat                    \<comment> \<open>the runs of \<open>backendList.Close()\<close> so far\<close>










text \<open>
  The steps by which the workers that have not finished do so after a cancellation, from
  the worker of index \<open>i\<close> on: each closes its clients, leaving through
  \<open>case <-ctx.Done()\<close>, if it has not yet, and runs \<open>wait.Done()\<close>; and what these
  steps make of a worker.
\<close>

definition finish :: "worker_state \<Rightarrow> worker_state" where
  "finish w =
     \<lparr>phase = Joined, releases = (if phase w = Working then releases w + 1 else releases w)\<rparr>"





section \<open>Properties of key prefixing\<close>

lemma appendPrefix_loop_eq:
  "i + length ks = length s \<Longrightarrow>
   appendPrefix_loop prefix i ks s = take i s @ map (\<lambda>k. Join [prefix, k]) ks"
proof (induction ks arbitrary: i s)
  case Nil
  then show ?case by simp
next
  case (Cons k ks)
  let ?s = "s[i := Join [prefix, k]]"
  from Cons.prems have i: "i < length s" by simp
  from Cons.prems have "Suc i + length ks = length ?s" by simp
  then have "appendPrefix_loop prefix (Suc i) ks ?s =
      take (Suc i) ?s @ map (\<lambda>k. Join [prefix, k]) ks"
    by (rule Cons.IH)
  moreover from i have "take (Suc i) ?s = take i s @ [Join [prefix, k]]"
    by (simp add: take_Suc_conv_app_nth)
  ultimately show ?case by simp
qed

lemma appendPrefix_map: "appendPrefix prefix keys = map (\<lambda>k. Join [prefix, k]) keys"
  by (simp add: appendPrefix_def appendPrefix_loop_eq)

text \<open>
  Claim C9. For every prefix and every list of keys, \<open>appendPrefix\<close> (the spec's
  \<open>prefixKeys\<close>) returns a list of the length of the input whose element at each index
  is \<open>path.Join\<close> of the prefix and the key at that index, so order and duplicates are
  kept; and on the prefix \<open>/app\<close> and the keys \<open>a\<close>, \<open>b\<close>, \<open>a\<close> it returns
  \<open>/app/a\<close>, \<open>/app/b\<close>, \<open>/app/a\<close>.
\<close>

theorem appendPrefix_elementwise:
  "length (appendPrefix prefix keys) = length keys \<and>
   (\<forall>i < length keys. appendPrefix prefix keys ! i = Join [prefix, keys ! i]) \<and>
   appendPrefix ''/app'' [''a'', ''b'', ''a''] = [''/app/a'', ''/app/b'', ''/app/a'']"
proof (intro conjI)
  show "length (appendPrefix prefix keys) = length keys"
    by (simp add: appendPrefix_map)
  show "\<forall>i < length keys. appendPrefix prefix keys ! i = Join [prefix, keys ! i]"
    by (simp add: appendPrefix_map)
  show "appendPrefix ''/app'' [''a'', ''b'', ''a''] = [''/app/a'', ''/app/b'', ''/app/a'']"
    by code_simp
qed

theorem appendPrefix_elementwise_witness:
  "(1::nat) < length [''x'', ''../y'', ''x''] \<and>
   length (appendPrefix ''/p/q'' [''x'', ''../y'', ''x'']) = 3 \<and>
   appendPrefix ''/p/q'' [''x'', ''../y'', ''x''] ! 1 = ''/p/y''"
proof -
  have j: "Join [''/p/q'', [''x'', ''../y'', ''x''] ! 1] = ''/p/y''" by code_simp
  from appendPrefix_elementwise [of "''/p/q''" "[''x'', ''../y'', ''x'']"]
  have "length (appendPrefix ''/p/q'' [''x'', ''../y'', ''x'']) = length [''x'', ''../y'', ''x'']"
    and "\<forall>i < length [''x'', ''../y'', ''x''].
           appendPrefix ''/p/q'' [''x'', ''../y'', ''x''] ! i
             = Join [''/p/q'', [''x'', ''../y'', ''x''] ! i]"
    by blast+
  then show ?thesis using j by simp
qed

section \<open>Properties of the resource worker\<close>

lemma obtained_append: "obtained (xs @ ys) = obtained xs @ obtained ys"
  by (induction xs rule: obtained.induct) simp_all

lemma closes_append: "closes (xs @ ys) = closes xs @ closes ys"
  by (induction xs rule: closes.induct) simp_all

lemma trace_emit: "trace (emit e st) = trace st @ [(now st, e)]"
  and now_emit: "now (emit e st) = now st"
  and backendList_emit: "backendList (emit e st) = backendList st"
  by (simp_all add: emit_def)

lemma trace_pass: "trace (pass d st) = trace st"
  and now_pass: "now (pass d st) = now st + d"
  and backendList_pass: "backendList (pass d st) = backendList st"
  by (simp_all add: pass_def)

lemma trace_sleep: "trace (sleep d st) = trace st @ [(now st, EvSleep d)]"
  and now_sleep: "now (sleep d st) = now st + d"
  and backendList_sleep: "backendList (sleep d st) = backendList st"
  by (simp_all add: sleep_def pass_def emit_def)

lemmas st_simps =
  trace_emit now_emit backendList_emit trace_pass now_pass backendList_pass
  trace_sleep now_sleep backendList_sleep

lemma phase_ok_trans:
  assumes "phase_ok st Break st1" and "phase_ok st1 x st2"
  shows "phase_ok st x st2"
proof -
  from assms(1) obtain ev1 where 1: "trace st1 = trace st @ ev1"
      "backendList st1 = backendList st @ obtained ev1" "closes ev1 = []"
    by (auto simp: phase_ok_def)
  from assms(2) obtain ev2 where 2: "trace st2 = trace st1 @ ev2"
      "backendList st2 = backendList st1 @ obtained ev2"
      "if x = Return
       then \<exists>ev'. ev2 = ev' @ [(now st2, EvClose (backendList st2))] \<and> closes ev' = []
       else closes ev2 = []"
    by (auto simp: phase_ok_def)
  have "if x = Return
       then \<exists>ev'. ev1 @ ev2 = ev' @ [(now st2, EvClose (backendList st2))] \<and> closes ev' = []
       else closes (ev1 @ ev2) = []"
  proof (cases "x = Return")
    case True
    with 2(3) obtain ev' where "ev2 = ev' @ [(now st2, EvClose (backendList st2))]"
        "closes ev' = []" by auto
    with 1(3) have "ev1 @ ev2 = (ev1 @ ev') @ [(now st2, EvClose (backendList st2))]"
        "closes (ev1 @ ev') = []" by (simp_all add: closes_append)
    with True show ?thesis by metis
  next
    case False
    with 1(3) 2(3) show ?thesis by (simp add: closes_append)
  qed
  with 1 2 show ?thesis
    unfolding phase_ok_def
    by (intro exI [of _ "ev1 @ ev2"]) (simp add: obtained_append)
qed

lemma retryloop_phase_ok:
  assumes "retryloop ctx config n st = Some (x, st')"
  shows "phase_ok st x st'"
proof -
  have "phase_ok st (fst y) (snd y)" if "retryloop ctx config n st = Some y" for y
  proof (rule retryloop.raw_induct
      [where P = "\<lambda>ctx config n st y. phase_ok st (fst y) (snd y)", OF _ that], goal_cases)
    case (1 f ctx config n st y)
    show ?case
    proof (cases "Done ctx (now st)")
      case True
      with 1(2) have "y = (Return, emit (EvClose (backendList st)) st)" by simp
      then show ?thesis by (simp add: phase_ok_def st_simps)
    next
      case nd: False
      obtain b err where c: "Connect config n = (b, err)" by (cases "Connect config n")
      show ?thesis
      proof (cases err)
        case None
        with 1(2) nd c
        have "y = (Break,
            (pass (took config n) (emit (EvConnect b None) st))\<lparr>backendList := backendList st @ [b]\<rparr>)"
          by (simp add: st_simps Let_def)
        then show ?thesis by (simp add: phase_ok_def st_simps)
      next
        case (Some e)
        show ?thesis
        proof (cases "e = ErrNilConfig")
          case True
          with 1(2) nd c Some
          have "y = (Break, pass (took config n) (emit (EvConnect b (Some e)) st))"
            by (simp add: Let_def)
          then show ?thesis by (simp add: phase_ok_def st_simps)
        next
          case False
          let ?st2 = "sleep 2000 (emit (EvLogError (Name b) e)
              (pass (took config n) (emit (EvConnect b (Some e)) st)))"
          from 1(2) nd c Some False have "f ctx config (Suc n) ?st2 = Some y"
            by (simp add: Let_def)
          then have "phase_ok ?st2 (fst y) (snd y)" by (rule 1(1))
          moreover have "phase_ok st Break ?st2"
            by (simp add: phase_ok_def st_simps)
          ultimately show ?thesis by (rule phase_ok_trans [rotated])
        qed
      qed
    qed
  qed
  from this [OF assms] show ?thesis by simp
qed

lemma connect_all_phase_ok:
  "connect_all ctx configs st = Some (x, st') \<Longrightarrow> phase_ok st x st'"
proof (induction configs arbitrary: st)
  case Nil
  then show ?case by (simp add: phase_ok_def)
next
  case (Cons config configs)
  from Cons.prems obtain y st1 where r: "retryloop ctx config 0 st = Some (y, st1)"
    by (auto split: option.splits)
  have ok1: "phase_ok st y st1" using r by (rule retryloop_phase_ok)
  show ?case
  proof (cases y)
    case Break
    with Cons.prems r have "connect_all ctx configs st1 = Some (x, st')" by simp
    then have "phase_ok st1 x st'" by (rule Cons.IH)
    with ok1 Break show ?thesis by (auto intro: phase_ok_trans)
  next
    case Return
    with Cons.prems r have "x = Return" "st' = st1" by simp_all
    with ok1 Return show ?thesis by simp
  qed
qed

text \<open>
  Claim C1. Whenever the worker of a resource exits, on whichever path (cancellation
  in the connect phase, failure to build the resource, return of the watch phase), the
  trace of the run holds exactly one \<open>Close\<close>, its argument is the list of exactly the
  clients that the successful connects of the run returned, and it is the last thing the
  worker does before the deferred \<open>wait.Done()\<close>.
\<close>

theorem worker_releases_once:
  assumes "worker eng ctx v = Some (x, st)"
  shows "closes (trace st) = [obtained (trace st)] \<and>
         (\<exists>tr t. trace st = tr @ [(t, EvClose (obtained (trace st))), (t, EvWaitDone)])"
proof -
  from assms obtain y st1 where c: "connect_all ctx (Backend v) start = Some (y, st1)"
    by (auto simp: worker_def split: option.splits)
  then have "phase_ok start y st1" by (rule connect_all_phase_ok)
  then obtain ev where ev: "trace st1 = ev" "backendList st1 = obtained ev"
      "if y = Return
       then \<exists>ev'. ev = ev' @ [(now st1, EvClose (backendList st1))] \<and> closes ev' = []
       else closes ev = []"
    by (auto simp: phase_ok_def start_def)
  show ?thesis
  proof (cases y)
    case Return
    with assms c have st: "st = emit EvWaitDone st1" by (simp add: worker_def)
    from ev(3) Return obtain ev' where ev': "ev = ev' @ [(now st1, EvClose (backendList st1))]"
        "closes ev' = []" by auto
    from ev(1) ev'(1) have tr: "trace st1 = ev' @ [(now st1, EvClose (backendList st1))]"
      by simp
    have "obtained ev = obtained ev'"
      by (subst ev'(1)) (simp add: obtained_append)
    with ev(2) have bl: "backendList st1 = obtained ev'" by simp
    have o: "obtained (trace st) = backendList st1"
      unfolding st trace_emit tr by (simp add: obtained_append bl)
    have "closes (trace st) = [backendList st1]"
      unfolding st trace_emit tr by (simp add: closes_append ev'(2))
    moreover
    have "trace st = ev' @ [(now st1, EvClose (backendList st1)), (now st1, EvWaitDone)]"
      unfolding st trace_emit tr by simp
    ultimately show ?thesis unfolding o by blast
  next
    case Break
    with ev(3) have nc: "closes ev = []" by simp
    show ?thesis
    proof (cases "NewResource eng (backendList st1) (Template v)")
      case (Some e)
      let ?st2 = "emit (EvLogBuildError e) (emit (EvNewResource (backendList st1) (Some e)) st1)"
      from Some assms c Break
      have st: "st = emit EvWaitDone (emit (EvClose (backendList st1)) ?st2)"
        by (simp add: worker_def Let_def)
      from ev(1,2) have o: "obtained (trace st) = backendList st1"
        by (simp add: st st_simps obtained_append)
      from ev(1) nc have "closes (trace st) = [backendList st1]"
        by (simp add: st st_simps closes_append)
      moreover have "trace st =
          trace ?st2 @ [(now st1, EvClose (backendList st1)), (now st1, EvWaitDone)]"
        by (simp add: st st_simps)
      ultimately show ?thesis unfolding o by blast
    next
      case None
      with assms c Break obtain d where d: "Monitor eng ctx (now st1) = Some d"
        by (auto simp: worker_def st_simps Let_def split: option.splits)
      let ?st2 = "emit (EvMonitor (backendList st1))
          (pass d (emit (EvNewResource (backendList st1) None) st1))"
      from None d assms c Break
      have st: "st = emit EvWaitDone (emit (EvClose (backendList st1)) ?st2)"
        by (simp add: worker_def st_simps Let_def)
      from ev(1,2) have o: "obtained (trace st) = backendList st1"
        by (simp add: st st_simps obtained_append)
      from ev(1) nc have "closes (trace st) = [backendList st1]"
        by (simp add: st st_simps closes_append)
      moreover have "trace st =
          trace ?st2 @ [(now st1 + d, EvClose (backendList st1)), (now st1 + d, EvWaitDone)]"
        by (simp add: st st_simps)
      ultimately show ?thesis unfolding o by blast
    qed
  qed
qed

theorem worker_releases_once_witness:
  "map_option (\<lambda>r. (fst r, closes (trace (snd r)))) (worker engine_ok (Some 3000) two_backends)
     = Some (Cancelled, [[\<lparr>Name = ''etcd'', conn = 7\<rparr>]]) \<and>
   map_option (\<lambda>r. (fst r, closes (trace (snd r)))) (worker engine_ok (Some 100) slow_backends)
     = Some (Cancelled, [[\<lparr>Name = ''a'', conn = 1\<rparr>]]) \<and>
   map_option (\<lambda>r. (fst r, closes (trace (snd r)))) (worker engine_ok (Some 0) slow_backends)
     = Some (Cancelled, [[]]) \<and>
   map_option (\<lambda>r. (fst r, closes (trace (snd r)))) (worker engine_bad None one_backend)
     = Some (BuildFailed, [[\<lparr>Name = ''etcd'', conn = 7\<rparr>]]) \<and>
   map_option (\<lambda>r. (fst r, closes (trace (snd r)))) (worker engine_ok None one_backend)
     = Some (MonitorReturned, [[\<lparr>Name = ''etcd'', conn = 7\<rparr>]])"
proof -
  have use: "map_option (\<lambda>r. (fst r, closes (trace (snd r)))) (worker eng ctx v) = Some (x, [bl])"
    if "map_option (\<lambda>r. (fst r, obtained (trace (snd r)))) (worker eng ctx v) = Some (x, bl)"
    for eng :: "unit engine" and ctx v x bl
  proof -
    from that obtain st where st: "worker eng ctx v = Some (x, st)" "obtained (trace st) = bl"
      by auto
    from worker_releases_once [OF st(1)] st show ?thesis by simp
  qed
  have "map_option (\<lambda>r. (fst r, obtained (trace (snd r)))) (worker engine_ok (Some 3000) two_backends)
      = Some (Cancelled, [\<lparr>Name = ''etcd'', conn = 7\<rparr>])"
    by code_simp
  moreover
  have "map_option (\<lambda>r. (fst r, obtained (trace (snd r)))) (worker engine_ok (Some 100) slow_backends)
      = Some (Cancelled, [\<lparr>Name = ''a'', conn = 1\<rparr>])"
    by code_simp
  moreover
  have "map_option (\<lambda>r. (fst r, obtained (trace (snd r)))) (worker engine_ok (Some 0) slow_backends)
      = Some (Cancelled, [])"
    by code_simp
  moreover
  have "map_option (\<lambda>r. (fst r, obtained (trace (snd r)))) (worker engine_bad None one_backend)
      = Some (BuildFailed, [\<lparr>Name = ''etcd'', conn = 7\<rparr>])"
    by code_simp
  moreover
  have "map_option (\<lambda>r. (fst r, obtained (trace (snd r)))) (worker engine_ok None one_backend)
      = Some (MonitorReturned, [\<lparr>Name = ''etcd'', conn = 7\<rparr>])"
    by code_simp
  ultimately show ?thesis by (intro conjI use)
qed

lemma Done_mono: "\<not> Done ctx t' \<Longrightarrow> t \<le> t' \<Longrightarrow> \<not> Done ctx t"
  by (auto simp: Done_def split: option.splits)

lemma attempt_at_0: "attempt_at config n t 0 = t"
  by (simp add: attempt_at_def)

lemma attempt_at_Suc:
  "attempt_at config n t (Suc j) = attempt_at config n t j + took config (n + j) + 2000"
  by (simp add: attempt_at_def)

lemma attempt_at_mono: "i \<le> j \<Longrightarrow> attempt_at config n t i \<le> attempt_at config n t j"
proof (induction j)
  case 0
  then show ?case by simp
next
  case (Suc j)
  show ?case
  proof (cases "i = Suc j")
    case True
    then show ?thesis by simp
  next
    case False
    with Suc.prems have "i \<le> j" by simp
    then have "attempt_at config n t i \<le> attempt_at config n t j" by (rule Suc.IH)
    then show ?thesis by (simp add: attempt_at_Suc)
  qed
qed

lemma retries_0: "retries config n t 0 = []"
  by (simp add: retries_def)

lemma retries_Suc:
  "retries config n t (Suc K) =
     retries config n t K @ failed_attempt config (n + K) (attempt_at config n t K)"
  by (simp add: retries_def)

lemma retryloop_failed_step:
  assumes "fails (Connect config n)" and "\<not> Done ctx (now st)"
  shows "retryloop ctx config n st =
         retryloop ctx config (Suc n)
           (st\<lparr>now := now st + took config n + 2000,
               trace := trace st @ failed_attempt config n (now st)\<rparr>)"
proof -
  from assms(1) obtain b e where e: "Connect config n = (b, Some e)" "e \<noteq> ErrNilConfig"
    by (cases "Connect config n") (auto simp: fails_def)
  have "sleep 2000 (emit (EvLogError (Name b) e)
          (pass (took config n) (emit (EvConnect b (Some e)) st))) =
        st\<lparr>now := now st + took config n + 2000,
            trace := trace st @ failed_attempt config n (now st)\<rparr>"
    by (simp add: sleep_def pass_def emit_def failed_attempt_def e)
  with e assms(2) show ?thesis
    by (subst retryloop.simps) (simp add: Let_def)
qed

lemma retryloop_failed_prefix:
  assumes "\<forall>i<K. fails (Connect config (n + i))"
    and "\<forall>i<K. \<not> Done ctx (attempt_at config n (now st) i)"
  shows "retryloop ctx config n st =
         retryloop ctx config (n + K)
           (st\<lparr>now := attempt_at config n (now st) K,
               trace := trace st @ retries config n (now st) K\<rparr>)"
  using assms
proof (induction K)
  case 0
  then show ?case by (simp add: attempt_at_0 retries_0)
next
  case (Suc K)
  let ?st = "st\<lparr>now := attempt_at config n (now st) K,
                trace := trace st @ retries config n (now st) K\<rparr>"
  from Suc.prems have "retryloop ctx config n st = retryloop ctx config (n + K) ?st"
    by (intro Suc.IH) simp_all
  also have "\<dots> = retryloop ctx config (Suc (n + K))
      (?st\<lparr>now := now ?st + took config (n + K) + 2000,
           trace := trace ?st @ failed_attempt config (n + K) (now ?st)\<rparr>)"
  proof (rule retryloop_failed_step)
    from Suc.prems(1) show "fails (Connect config (n + K))" by blast
    from Suc.prems(2) have "\<not> Done ctx (attempt_at config n (now st) K)" by blast
    then show "\<not> Done ctx (now ?st)" by simp
  qed
  finally show ?case by (simp add: attempt_at_Suc retries_Suc)
qed

text \<open>
  Claim C4. If the calls of \<open>Connect\<close> on a backend configuration fail \<open>K\<close> times
  with an error other than the sentinel and then succeed, and the context is not
  cancelled before the successful call, then the retry loop makes exactly these \<open>K\<close>
  failed calls, each followed by one log entry with the name of the backend and the error
  and by one sleep of 2000 milliseconds (no other delay, for any \<open>K\<close>), then the
  successful call, and appends exactly the one client it returned. The successful call
  begins at the clock \<open>now st + 2000 * K\<close> plus the time the failed calls took.
\<close>

theorem retry_until_connected:
  assumes "\<forall>i<K. fails (Connect config (n + i))"
    and "snd (Connect config (n + K)) = None"
    and "\<not> Done ctx (now st + 2000 * K + (\<Sum>i<K. took config (n + i)))"
  shows "retryloop ctx config n st =
         Some (Break,
           \<lparr>backendList = backendList st @ [fst (Connect config (n + K))],
            now = now st + 2000 * K + (\<Sum>i<K. took config (n + i)) + took config (n + K),
            trace = trace st @ retries config n (now st) K @
                    [(now st + 2000 * K + (\<Sum>i<K. took config (n + i)),
                      EvConnect (fst (Connect config (n + K))) None)]\<rparr>)"
proof -
  let ?t = "attempt_at config n (now st) K"
  have t: "?t = now st + 2000 * K + (\<Sum>i<K. took config (n + i))"
    by (simp add: attempt_at_def)
  have live: "\<forall>i<K. \<not> Done ctx (attempt_at config n (now st) i)"
  proof (intro allI impI)
    fix i assume "i < K"
    then have "attempt_at config n (now st) i \<le> ?t" by (intro attempt_at_mono) simp
    moreover from assms(3) have "\<not> Done ctx ?t" unfolding t .
    ultimately show "\<not> Done ctx (attempt_at config n (now st) i)" by (rule Done_mono [rotated])
  qed
  let ?st = "st\<lparr>now := ?t, trace := trace st @ retries config n (now st) K\<rparr>"
  from assms(1) live have "retryloop ctx config n st = retryloop ctx config (n + K) ?st"
    by (rule retryloop_failed_prefix)
  also from assms(2,3) have "\<dots> = Some (Break,
      (pass (took config (n + K)) (emit (EvConnect (fst (Connect config (n + K))) None) ?st))
        \<lparr>backendList := backendList ?st @ [fst (Connect config (n + K))]\<rparr>)"
    by (subst retryloop.simps) (simp add: Let_def st_simps t)
  finally show ?thesis by (simp add: emit_def pass_def t)
qed

theorem retry_until_connected_witness:
  "retryloop None (flaky ''etcd'' 2 7) 0 start =
     Some (Break,
       \<lparr>backendList = [\<lparr>Name = ''etcd'', conn = 7\<rparr>],
        now = 4000,
        trace =
          [(0, EvConnect \<lparr>Name = ''etcd'', conn = 0\<rparr> (Some (ErrOther ''connection refused''))),
           (0, EvLogError ''etcd'' (ErrOther ''connection refused'')),
           (0, EvSleep 2000),
           (2000, EvConnect \<lparr>Name = ''etcd'', conn = 0\<rparr> (Some (ErrOther ''connection refused''))),
           (2000, EvLogError ''etcd'' (ErrOther ''connection refused'')),
           (2000, EvSleep 2000),
           (4000, EvConnect \<lparr>Name = ''etcd'', conn = 7\<rparr> None)]\<rparr>)"
proof -
  have 1: "\<forall>i<2. fails (Connect (flaky ''etcd'' 2 7) (0 + i))"
    by (simp add: fails_def flaky_def)
  have 2: "snd (Connect (flaky ''etcd'' 2 7) (0 + 2)) = None"
    by (simp add: flaky_def)
  have 3: "\<not> Done None (now start + 2000 * 2 + (\<Sum>i<2. took (flaky ''etcd'' 2 7) (0 + i)))"
    by (simp add: Done_def)
  have r: "retries (flaky ''etcd'' 2 7) 0 0 2 =
      [(0, EvConnect \<lparr>Name = ''etcd'', conn = 0\<rparr> (Some (ErrOther ''connection refused''))),
       (0, EvLogError ''etcd'' (ErrOther ''connection refused'')),
       (0, EvSleep 2000),
       (2000, EvConnect \<lparr>Name = ''etcd'', conn = 0\<rparr> (Some (ErrOther ''connection refused''))),
       (2000, EvLogError ''etcd'' (ErrOther ''connection refused'')),
       (2000, EvSleep 2000)]"
    by (simp add: retries_def attempt_at_def numeral_2_eq_2 failed_attempt_def flaky_def)
  have f: "Connect (flaky ''etcd'' 2 7) (0 + 2) = (\<lparr>Name = ''etcd'', conn = 7\<rparr>, None)"
    "took (flaky ''etcd'' 2 7) = (\<lambda>n. 0)"
    by (simp_all add: flaky_def)
  have s: "now start = 0" "trace start = []" "backendList start = []"
    by (simp_all add: start_def)
  from retry_until_connected [where K = 2 and config = "flaky ''etcd'' 2 7" and n = 0
      and ctx = None and st = start, OF 1 2 3]
  show ?thesis unfolding f s r by simp
qed

text \<open>
  Claim C5. If a call of \<open>Connect\<close> returns the sentinel \<open>ErrNilConfig\<close> (the context
  not being cancelled at that moment), the retry loop ends at once: the only event is
  that call, so there is no log entry, no sleep and no further call; the list of clients
  is unchanged; and the connect phase goes on with the next configuration.
\<close>

theorem skip_unconfigured:
  assumes "snd (Connect config n) = Some ErrNilConfig" and "\<not> Done ctx (now st)"
  shows "retryloop ctx config n st =
           Some (Break,
             st\<lparr>now := now st + took config n,
                trace := trace st @
                  [(now st, EvConnect (fst (Connect config n)) (Some ErrNilConfig))]\<rparr>) \<and>
         (n = 0 \<longrightarrow>
           connect_all ctx (config # configs) st =
           connect_all ctx configs
             (st\<lparr>now := now st + took config n,
                 trace := trace st @
                   [(now st, EvConnect (fst (Connect config n)) (Some ErrNilConfig))]\<rparr>))"
proof -
  have eq: "pass (took config n) (emit (EvConnect (fst (Connect config n)) (Some ErrNilConfig)) st) =
      st\<lparr>now := now st + took config n,
         trace := trace st @
           [(now st, EvConnect (fst (Connect config n)) (Some ErrNilConfig))]\<rparr>"
    by (simp add: emit_def pass_def)
  from assms have "retryloop ctx config n st =
      Some (Break, pass (took config n)
        (emit (EvConnect (fst (Connect config n)) (Some ErrNilConfig)) st))"
    by (subst retryloop.simps) (simp add: Let_def)
  then show ?thesis unfolding eq [symmetric] by auto
qed

theorem skip_unconfigured_witness:
  "retryloop None unconfigured 0 start =
     Some (Break,
       \<lparr>backendList = [], now = 0,
        trace = [(0, EvConnect \<lparr>Name = [], conn = 0\<rparr> (Some ErrNilConfig))]\<rparr>) \<and>
   connect_all None [unconfigured, flaky ''etcd'' 0 7] start =
     Some (Break,
       \<lparr>backendList = [\<lparr>Name = ''etcd'', conn = 7\<rparr>], now = 0,
        trace = [(0, EvConnect \<lparr>Name = [], conn = 0\<rparr> (Some ErrNilConfig)),
                 (0, EvConnect \<lparr>Name = ''etcd'', conn = 7\<rparr> None)]\<rparr>)"
proof -
  have 1: "snd (Connect unconfigured 0) = Some ErrNilConfig" by (simp add: unconfigured_def)
  have 2: "\<not> Done None (now start)" by (simp add: Done_def)
  have 3: "connect_all None [flaky ''etcd'' 0 7]
      (start\<lparr>now := now start + took unconfigured 0,
             trace := trace start @
               [(now start, EvConnect (fst (Connect unconfigured 0)) (Some ErrNilConfig))]\<rparr>)
    = Some (Break,
       \<lparr>backendList = [\<lparr>Name = ''etcd'', conn = 7\<rparr>], now = 0,
        trace = [(0, EvConnect \<lparr>Name = [], conn = 0\<rparr> (Some ErrNilConfig)),
                 (0, EvConnect \<lparr>Name = ''etcd'', conn = 7\<rparr> None)]\<rparr>)"
    by code_simp
  from skip_unconfigured [where config = unconfigured and n = 0 and ctx = None and st = start
      and configs = "[flaky ''etcd'' 0 7]", OF 1 2] 3
  show ?thesis
    by (simp add: start_def unconfigured_def)
qed

text \<open>
  Claim C3, as amended. The retry delay is a plain \<open>time.Sleep\<close> and is not
  interrupted: cancellation is seen at the \<open>select\<close> at the top of the loop only. If
  the context is cancelled while the worker sleeps after a failed attempt (or during
  the failed call itself), the sleep runs to its end, and then the worker closes the
  clients connected so far and returns, without a further call of \<open>Connect\<close>: the close
  comes with the end of the sleep, up to two seconds after a cancellation during the
  sleep.
\<close>

theorem cancel_during_retry_sleep:
  assumes "\<forall>i<Suc K. fails (Connect config (n + i))"
    and "now st + 2000 * K + (\<Sum>i<K. took config (n + i)) < c"
    and "c \<le> now st + 2000 * Suc K + (\<Sum>i<Suc K. took config (n + i))"
  shows "retryloop (Some c) config n st =
         Some (Return,
           \<lparr>backendList = backendList st,
            now = now st + 2000 * Suc K + (\<Sum>i<Suc K. took config (n + i)),
            trace = trace st @ retries config n (now st) (Suc K) @
                    [(now st + 2000 * Suc K + (\<Sum>i<Suc K. took config (n + i)),
                      EvClose (backendList st))]\<rparr>)"
proof -
  have t: "attempt_at config n (now st) j = now st + 2000 * j + (\<Sum>i<j. took config (n + i))"
    for j by (simp add: attempt_at_def)
  have live: "\<forall>i<Suc K. \<not> Done (Some c) (attempt_at config n (now st) i)"
  proof (intro allI impI)
    fix i assume "i < Suc K"
    then have "attempt_at config n (now st) i \<le> attempt_at config n (now st) K"
      by (intro attempt_at_mono) simp
    with assms(2) show "\<not> Done (Some c) (attempt_at config n (now st) i)"
      by (simp add: Done_def t [of K])
  qed
  let ?st = "st\<lparr>now := attempt_at config n (now st) (Suc K),
                trace := trace st @ retries config n (now st) (Suc K)\<rparr>"
  from assms(1) live
  have "retryloop (Some c) config n st = retryloop (Some c) config (n + Suc K) ?st"
    by (rule retryloop_failed_prefix)
  also from assms(3) have "\<dots> = Some (Return, emit (EvClose (backendList ?st)) ?st)"
    by (subst retryloop.simps) (simp add: Done_def t [of "Suc K"])
  finally show ?thesis by (simp add: emit_def t [of "Suc K"])
qed

theorem cancel_during_retry_sleep_witness:
  "retryloop (Some 2500) (refusing ''etcd'') 0
     \<lparr>backendList = [\<lparr>Name = ''consul'', conn = 3\<rparr>], now = 0, trace = []\<rparr> =
     Some (Return,
       \<lparr>backendList = [\<lparr>Name = ''consul'', conn = 3\<rparr>],
        now = 4000,
        trace =
          [(0, EvConnect \<lparr>Name = ''etcd'', conn = 0\<rparr> (Some (ErrOther ''connection refused''))),
           (0, EvLogError ''etcd'' (ErrOther ''connection refused'')),
           (0, EvSleep 2000),
           (2000, EvConnect \<lparr>Name = ''etcd'', conn = 0\<rparr> (Some (ErrOther ''connection refused''))),
           (2000, EvLogError ''etcd'' (ErrOther ''connection refused'')),
           (2000, EvSleep 2000),
           (4000, EvClose [\<lparr>Name = ''consul'', conn = 3\<rparr>])]\<rparr>)"
proof -
  let ?st = "\<lparr>backendList = [\<lparr>Name = ''consul'', conn = 3\<rparr>], now = 0, trace = []\<rparr>"
  have 1: "\<forall>i<Suc 1. fails (Connect (refusing ''etcd'') (0 + i))"
    by (simp add: fails_def refusing_def)
  have 2: "now ?st + 2000 * 1 + (\<Sum>i<1. took (refusing ''etcd'') (0 + i)) < 2500"
    by (simp add: refusing_def)
  have 3: "2500 \<le> now ?st + 2000 * Suc 1 + (\<Sum>i<Suc 1. took (refusing ''etcd'') (0 + i))"
    by (simp add: refusing_def)
  from cancel_during_retry_sleep [where K = 1 and config = "refusing ''etcd''" and n = 0
      and st = ?st and c = 2500, OF 1 2 3]
  show ?thesis
    by (simp add: retries_def attempt_at_def failed_attempt_def refusing_def)
qed

text \<open>
  Claim C3, as stated, fails: with a backend that is refused and a context cancelled at
  1000 milliseconds, in the middle of the first sleep (which starts at 0), the sleep
  runs to its end and the clients are closed at 2000 milliseconds, a second after the
  cancellation.
\<close>

theorem sleep_ignores_cancel_counterexample:
  "retryloop (Some 1000) (refusing ''etcd'') 0 start =
     Some (Return,
       \<lparr>backendList = [], now = 2000,
        trace =
          [(0, EvConnect \<lparr>Name = ''etcd'', conn = 0\<rparr> (Some (ErrOther ''connection refused''))),
           (0, EvLogError ''etcd'' (ErrOther ''connection refused'')),
           (0, EvSleep 2000),
           (2000, EvClose [])]\<rparr>)"
  by code_simp

section \<open>Properties of loading the configuration\<close>

lemma include_loop_resources:
  "\<exists>rs. fst (fst (include_loop sys files c lg)) = c\<lparr>Resource := Resource c @ rs\<rparr> \<and>
        (\<forall>r\<in>set rs. Template r \<noteq> [])"
proof (induction files arbitrary: c lg)
  case Nil
  have "fst (fst (include_loop sys [] c lg)) = c\<lparr>Resource := Resource c @ []\<rparr>" by simp
  then show ?case by (metis empty_iff empty_set)
next
  case (Cons name files)
  show ?case
  proof (cases "HasSuffix name ''.toml''")
    case False
    with Cons.IH [of c lg] show ?thesis by simp
  next
    case True
    let ?lg1 = "log_Info sys (Join [IncludeDir c, name]) ''Loading resource configuration'' lg"
    have stop: "\<exists>rs. c = c\<lparr>Resource := Resource c @ rs\<rparr> \<and> (\<forall>r\<in>set rs. Template r \<noteq> [])"
      by (rule exI [of _ "[]"]) simp
    show ?thesis
    proof (cases "readFileAndExpandEnv sys (Join [IncludeDir c, name])")
      case (Inl err)
      with True stop show ?thesis by (simp add: Let_def)
    next
      case (Inr buf)
      obtain r e where u: "Unmarshal_resource sys buf = (r, e)"
        by (cases "Unmarshal_resource sys buf")
      show ?thesis
      proof (cases e)
        case (Some err)
        with True Inr u stop show ?thesis by (simp add: Let_def)
      next
        case None
        show ?thesis
        proof (cases "Template r = []")
          case True
          with \<open>HasSuffix name ''.toml''\<close> Inr u None Cons.IH [of c ?lg1]
          show ?thesis by (simp add: Let_def)
        next
          case False
          let ?c1 = "c\<lparr>Resource := Resource c @ [r]\<rparr>"
          from Cons.IH [of ?c1 ?lg1] obtain rs where
            rs: "fst (fst (include_loop sys files ?c1 ?lg1)) = ?c1\<lparr>Resource := Resource ?c1 @ rs\<rparr>"
              "\<forall>r\<in>set rs. Template r \<noteq> []" by blast
          from True Inr u None False
          have "include_loop sys (name # files) c lg = include_loop sys files ?c1 ?lg1"
            by (simp add: Let_def)
          with rs(1) have "fst (fst (include_loop sys (name # files) c lg)) =
              c\<lparr>Resource := Resource c @ (r # rs)\<rparr>" by simp
          moreover from rs(2) False have "\<forall>r'\<in>set (r # rs). Template r' \<noteq> []" by simp
          ultimately show ?thesis by blast
        qed
      qed
    qed
  qed
qed


lemma include_loop_ok:
  "snd (fst (include_loop sys files c lg)) = None \<Longrightarrow>
   fst (fst (include_loop sys files c lg)) =
     c\<lparr>Resource := Resource c @ included sys (IncludeDir c) files\<rparr>"
proof (induction files arbitrary: c lg)
  case Nil
  then show ?case by simp
next
  case (Cons name files)
  show ?case
  proof (cases "HasSuffix name ''.toml''")
    case False
    with Cons.prems Cons.IH [of c lg] show ?thesis by simp
  next
    case True
    let ?lg1 = "log_Info sys (Join [IncludeDir c, name]) ''Loading resource configuration'' lg"
    show ?thesis
    proof (cases "load_one sys (IncludeDir c) name")
      case (Inl err)
      with True have "snd (fst (include_loop sys (name # files) c lg)) = Some err"
        by (auto simp: load_one_def Let_def split: sum.splits option.splits prod.splits)
      with Cons.prems show ?thesis by simp
    next
      case (Inr r)
      then obtain buf where buf: "readFileAndExpandEnv sys (Join [IncludeDir c, name]) = Inr buf"
          "Unmarshal_resource sys buf = (r, None)"
        by (auto simp: load_one_def split: sum.splits option.splits prod.splits)
      let ?c1 = "if length (Template r) > 0 then c\<lparr>Resource := Resource c @ [r]\<rparr> else c"
      have dir: "IncludeDir ?c1 = IncludeDir c" by simp
      from True buf have step: "include_loop sys (name # files) c lg =
          include_loop sys files ?c1 ?lg1"
        by (simp add: Let_def)
      with Cons.prems have "snd (fst (include_loop sys files ?c1 ?lg1)) = None" by simp
      then have "fst (fst (include_loop sys files ?c1 ?lg1)) =
          ?c1\<lparr>Resource := Resource ?c1 @ included sys (IncludeDir ?c1) files\<rparr>"
        by (rule Cons.IH)
      also have "\<dots> = c\<lparr>Resource := Resource c @ included sys (IncludeDir c) (name # files)\<rparr>"
        unfolding dir using True Inr by simp
      finally show ?thesis using step by simp
    qed
  qed
qed

lemma example_main_loaded:
  "readFileAndExpandEnv (example_system files) ''/etc/remco/config'' = Inr ''main''"
  "Unmarshal_configuration (example_system files) ''main'' = (example_main, None)"
  by (simp_all add: readFileAndExpandEnv_def example_system_def)

lemma example_dir:
  "IncludeDir example_main = ''/etc/remco/resource.d''"
  "ReadDir (example_system files) ''/etc/remco/resource.d'' = Inr files"
  by (simp_all add: example_main_def example_system_def)

lemma example_paths:
  "Join [''/etc/remco/resource.d'', ''a.toml''] = ''/etc/remco/resource.d/a.toml''"
  "Join [''/etc/remco/resource.d'', ''b.toml''] = ''/etc/remco/resource.d/b.toml''"
  "Join [''/etc/remco/resource.d'', ''c.toml''] = ''/etc/remco/resource.d/c.toml''"
  by code_simp+

lemma example_suffixes:
  "HasSuffix ''a.toml'' ''.toml''" "HasSuffix ''b.toml'' ''.toml''"
  "HasSuffix ''c.toml'' ''.toml''" "\<not> HasSuffix ''notes.txt'' ''.toml''"
  by (simp_all add: HasSuffix_def)

lemma example_load_one:
  "load_one (example_system files) ''/etc/remco/resource.d'' ''a.toml''
     = Inr \<lparr>Template = [()], Backend = []\<rparr>"
  "load_one (example_system files) ''/etc/remco/resource.d'' ''b.toml''
     = Inr \<lparr>Template = [], Backend = []\<rparr>"
  "load_one (example_system files) ''/etc/remco/resource.d'' ''c.toml''
     = Inl (ErrOther ''toml: syntax error'')"
  unfolding load_one_def example_paths
  by (simp_all add: readFileAndExpandEnv_def example_system_def)

lemma example_configureLogger:
  "configureLogger (example_system files) example_main example_logger =
     \<lparr>Level = ''debug'', Formatter = ''json'', entries = []\<rparr>"
  by (simp add: configureLogger_def example_system_def example_main_def example_logger_def)

lemma example_log_Info:
  "log_Info (example_system files) path msg lg = lg\<lparr>entries := entries lg @ [LogInfo path msg]\<rparr>"
  by (simp add: example_system_def)

lemma example_reads:
  "readFileAndExpandEnv (example_system files) ''/etc/remco/resource.d/a.toml'' = Inr ''one template''"
  "readFileAndExpandEnv (example_system files) ''/etc/remco/resource.d/b.toml'' = Inr ''no template''"
  "readFileAndExpandEnv (example_system files) ''/etc/remco/resource.d/c.toml'' = Inr ''malformed''"
  by (simp_all add: readFileAndExpandEnv_def example_system_def)

lemma example_decodes:
  "Unmarshal_resource (example_system files) ''one template'' = (\<lparr>Template = [()], Backend = []\<rparr>, None)"
  "Unmarshal_resource (example_system files) ''no template'' = (\<lparr>Template = [], Backend = []\<rparr>, None)"
  "Unmarshal_resource (example_system files) ''malformed''
     = (\<lparr>Template = [], Backend = []\<rparr>, Some (ErrOther ''toml: syntax error''))"
  by (simp_all add: example_system_def)

lemma example_load:
  "newConfiguration (example_system [''a.toml'', ''b.toml'', ''notes.txt''])
     ''/etc/remco/config'' example_logger =
   ((\<lparr>LogLevel = ''debug'', LogFormat = ''json'', IncludeDir = ''/etc/remco/resource.d'',
      Resource = [\<lparr>Template = [], Backend = []\<rparr>, \<lparr>Template = [()], Backend = []\<rparr>]\<rparr>,
     None),
    \<lparr>Level = ''debug'', Formatter = ''json'',
     entries = [LogInfo ''/etc/remco/resource.d/a.toml'' ''Loading resource configuration'',
                LogInfo ''/etc/remco/resource.d/b.toml'' ''Loading resource configuration'']\<rparr>)"
proof -
  have "newConfiguration (example_system [''a.toml'', ''b.toml'', ''notes.txt''])
      ''/etc/remco/config'' example_logger =
    include_loop (example_system [''a.toml'', ''b.toml'', ''notes.txt''])
      [''a.toml'', ''b.toml'', ''notes.txt''] example_main
      \<lparr>Level = ''debug'', Formatter = ''json'', entries = []\<rparr>"
    by (simp add: newConfiguration_def example_main_loaded example_dir example_configureLogger)
  also have "\<dots> = ((example_main\<lparr>Resource := Resource example_main @ [\<lparr>Template = [()], Backend = []\<rparr>]\<rparr>, None),
    \<lparr>Level = ''debug'', Formatter = ''json'',
     entries = [LogInfo ''/etc/remco/resource.d/a.toml'' ''Loading resource configuration'',
                LogInfo ''/etc/remco/resource.d/b.toml'' ''Loading resource configuration'']\<rparr>)"
    by (simp add: example_suffixes example_dir example_paths example_reads example_decodes
        example_log_Info)
  finally show ?thesis by (simp add: example_main_def)
qed

text \<open>
  Claim C6, as amended. Only the resources read from the include directory are
  filtered: when the main file has been read and decoded, the configuration that
  \<open>newConfiguration\<close> returns is the decoded one with resources appended to its list, and
  each appended resource has at least one template. The resources of the main file are
  kept as decoded, with or without templates. When the load succeeds, the appended
  resources are exactly those with a template among the files \<open>*.toml\<close> of the
  directory, in order.
\<close>

theorem include_resources_nonempty:
  assumes "readFileAndExpandEnv sys path = Inr buf"
    and "Unmarshal_configuration sys buf = (c0, None)"
  shows "(\<exists>rs. fst (fst (newConfiguration sys path lg)) = c0\<lparr>Resource := Resource c0 @ rs\<rparr> \<and>
              (\<forall>r\<in>set rs. Template r \<noteq> [])) \<and>
         (IncludeDir c0 \<noteq> [] \<and> ReadDir sys (IncludeDir c0) = Inr files \<and>
          snd (fst (newConfiguration sys path lg)) = None \<longrightarrow>
            fst (fst (newConfiguration sys path lg)) =
              c0\<lparr>Resource := Resource c0 @ included sys (IncludeDir c0) files\<rparr>)"
proof (intro conjI impI)
  have stop: "\<exists>rs. c0 = c0\<lparr>Resource := Resource c0 @ rs\<rparr> \<and> (\<forall>r\<in>set rs. Template r \<noteq> [])"
    by (rule exI [of _ "[]"]) simp
  show "\<exists>rs. fst (fst (newConfiguration sys path lg)) = c0\<lparr>Resource := Resource c0 @ rs\<rparr> \<and>
              (\<forall>r\<in>set rs. Template r \<noteq> [])"
  proof (cases "IncludeDir c0 = []")
    case True
    with assms stop show ?thesis by (simp add: newConfiguration_def Let_def)
  next
    case False
    show ?thesis
    proof (cases "ReadDir sys (IncludeDir c0)")
      case (Inl err)
      with False assms stop show ?thesis by (simp add: newConfiguration_def Let_def)
    next
      case (Inr files)
      with False assms have "newConfiguration sys path lg =
          include_loop sys files c0 (configureLogger sys c0 lg)"
        by (simp add: newConfiguration_def Let_def)
      with include_loop_resources [of sys files c0 "configureLogger sys c0 lg"]
      show ?thesis by simp
    qed
  qed
next
  assume a: "IncludeDir c0 \<noteq> [] \<and> ReadDir sys (IncludeDir c0) = Inr files \<and>
      snd (fst (newConfiguration sys path lg)) = None"
  with assms have eq: "newConfiguration sys path lg =
      include_loop sys files c0 (configureLogger sys c0 lg)"
    by (simp add: newConfiguration_def Let_def)
  with a have "snd (fst (include_loop sys files c0 (configureLogger sys c0 lg))) = None"
    by simp
  then have "fst (fst (include_loop sys files c0 (configureLogger sys c0 lg))) =
      c0\<lparr>Resource := Resource c0 @ included sys (IncludeDir c0) files\<rparr>"
    by (rule include_loop_ok)
  with eq show "fst (fst (newConfiguration sys path lg)) =
      c0\<lparr>Resource := Resource c0 @ included sys (IncludeDir c0) files\<rparr>" by simp
qed

theorem include_resources_nonempty_witness:
  "(\<exists>rs. fst (fst (newConfiguration (example_system [''a.toml'', ''b.toml'', ''notes.txt''])
                   ''/etc/remco/config'' example_logger))
          = example_main\<lparr>Resource := Resource example_main @ rs\<rparr> \<and>
        list_all (\<lambda>r. Template r \<noteq> []) rs) \<and>
   fst (fst (newConfiguration (example_system [''a.toml'', ''b.toml'', ''notes.txt''])
               ''/etc/remco/config'' example_logger))
     = example_main\<lparr>Resource := Resource example_main @ [\<lparr>Template = [()], Backend = []\<rparr>]\<rparr>"
proof -
  let ?files = "[''a.toml'', ''b.toml'', ''notes.txt'']"
  have ok: "IncludeDir example_main \<noteq> [] \<and>
      ReadDir (example_system ?files) (IncludeDir example_main) = Inr ?files \<and>
      snd (fst (newConfiguration (example_system ?files) ''/etc/remco/config'' example_logger)) = None"
    by (simp add: example_dir example_load)
  have inc: "included (example_system ?files) (IncludeDir example_main) ?files
      = [\<lparr>Template = [()], Backend = []\<rparr>]"
    by (simp add: example_dir example_suffixes example_load_one)
  note inst = include_resources_nonempty [OF example_main_loaded [of ?files],
      where lg = example_logger and files = ?files]
  from inst have "\<exists>rs. fst (fst (newConfiguration (example_system ?files)
        ''/etc/remco/config'' example_logger))
      = example_main\<lparr>Resource := Resource example_main @ rs\<rparr> \<and> (\<forall>r\<in>set rs. Template r \<noteq> [])"
    by (rule conjunct1)
  then have A: "\<exists>rs. fst (fst (newConfiguration (example_system ?files)
        ''/etc/remco/config'' example_logger))
      = example_main\<lparr>Resource := Resource example_main @ rs\<rparr> \<and> list_all (\<lambda>r. Template r \<noteq> []) rs"
    by (simp only: list_all_iff)
  from inst ok have B: "fst (fst (newConfiguration (example_system ?files)
        ''/etc/remco/config'' example_logger))
      = example_main\<lparr>Resource := Resource example_main @
          included (example_system ?files) (IncludeDir example_main) ?files\<rparr>"
    by blast
  from A B show ?thesis unfolding inc by (rule conjI)
qed

text \<open>
  Claim C6, as stated, fails on a resource of the main file: the example installation
  loads without error, and the first resource of the result, declared in the main file,
  has no template (the one of \<open>b.toml\<close> has been left out).
\<close>

theorem main_file_resource_counterexample:
  "snd (fst (newConfiguration (example_system [''a.toml'', ''b.toml'', ''notes.txt''])
              ''/etc/remco/config'' example_logger)) = None \<and>
   map Template (Resource (fst (fst (newConfiguration
       (example_system [''a.toml'', ''b.toml'', ''notes.txt''])
       ''/etc/remco/config'' example_logger)))) = [[], [()]]"
  by (simp add: example_load)

lemma include_loop_fails_after:
  assumes "\<forall>f\<in>set pre. HasSuffix f ''.toml'' \<longrightarrow> (\<exists>r. load_one sys (IncludeDir c) f = Inr r)"
    and "HasSuffix bad ''.toml''" and "load_one sys (IncludeDir c) bad = Inl err"
  shows "include_loop sys (pre @ bad # post) c lg =
     ((c\<lparr>Resource := Resource c @ included sys (IncludeDir c) pre\<rparr>, Some err),
      log_infos sys (IncludeDir c) (pre @ [bad]) lg)"
  using assms
proof (induction pre arbitrary: c lg)
  case Nil
  then show ?case
    by (auto simp: load_one_def log_infos_def Let_def
        split: sum.splits option.splits prod.splits)
next
  case (Cons f pre)
  show ?case
  proof (cases "HasSuffix f ''.toml''")
    case False
    with Cons.IH [of c lg] Cons.prems show ?thesis by (simp add: log_infos_def)
  next
    case True
    with Cons.prems(1) obtain r where r: "load_one sys (IncludeDir c) f = Inr r" by auto
    then obtain buf where buf: "readFileAndExpandEnv sys (Join [IncludeDir c, f]) = Inr buf"
        "Unmarshal_resource sys buf = (r, None)"
      by (auto simp: load_one_def split: sum.splits option.splits prod.splits)
    let ?lg1 = "log_Info sys (Join [IncludeDir c, f]) ''Loading resource configuration'' lg"
    let ?c1 = "if length (Template r) > 0 then c\<lparr>Resource := Resource c @ [r]\<rparr> else c"
    have dir: "IncludeDir ?c1 = IncludeDir c" by simp
    from True buf have step: "include_loop sys ((f # pre) @ bad # post) c lg =
        include_loop sys (pre @ bad # post) ?c1 ?lg1"
      by (simp add: Let_def)
    have "include_loop sys (pre @ bad # post) ?c1 ?lg1 =
        ((?c1\<lparr>Resource := Resource ?c1 @ included sys (IncludeDir ?c1) pre\<rparr>, Some err),
         log_infos sys (IncludeDir ?c1) (pre @ [bad]) ?lg1)"
    proof (rule Cons.IH)
      show "\<forall>f\<in>set pre. HasSuffix f ''.toml'' \<longrightarrow> (\<exists>r. load_one sys (IncludeDir ?c1) f = Inr r)"
        unfolding dir using Cons.prems(1) by simp
      show "HasSuffix bad ''.toml''" by fact
      show "load_one sys (IncludeDir ?c1) bad = Inl err" unfolding dir by fact
    qed
    also have "\<dots> =
        ((c\<lparr>Resource := Resource c @ included sys (IncludeDir c) (f # pre)\<rparr>, Some err),
         log_infos sys (IncludeDir c) ((f # pre) @ [bad]) lg)"
      unfolding dir using True r by (simp add: log_infos_def)
    finally show ?thesis using step by simp
  qed
qed

text \<open>
  Claim C10. When the main file has been read and decoded and names an include
  directory, a failure in scanning it leaves a partly loaded configuration in the
  result. If the directory cannot be read, the result is the error with the
  configuration of the main file. If the entries \<open>pre\<close> load and the entry \<open>bad\<close>,
  named \<open>*.toml\<close>, cannot be read or decoded, the result is the error with the
  configuration of the main file and, appended to its resources, the resources with
  a template from \<open>pre\<close>. In both cases the logger is the one that \<open>configureLogger\<close>
  left (with the entries written for the files since): it has been given the level and
  the format of the main file, as far as the main file sets them.
\<close>

theorem newConfiguration_not_atomic:
  assumes "readFileAndExpandEnv sys path = Inr buf"
    and "Unmarshal_configuration sys buf = (c0, None)"
    and "IncludeDir c0 \<noteq> []"
  shows "(ReadDir sys (IncludeDir c0) = Inl err \<longrightarrow>
            newConfiguration sys path lg = ((c0, Some err), configureLogger sys c0 lg)) \<and>
         (ReadDir sys (IncludeDir c0) = Inr (pre @ bad # post) \<and>
          (\<forall>f\<in>set pre. HasSuffix f ''.toml'' \<longrightarrow> (\<exists>r. load_one sys (IncludeDir c0) f = Inr r)) \<and>
          HasSuffix bad ''.toml'' \<and> load_one sys (IncludeDir c0) bad = Inl err \<longrightarrow>
            newConfiguration sys path lg =
              ((c0\<lparr>Resource := Resource c0 @ included sys (IncludeDir c0) pre\<rparr>, Some err),
               log_infos sys (IncludeDir c0) (pre @ [bad]) (configureLogger sys c0 lg))) \<and>
         (LogLevel c0 \<noteq> [] \<and> LogFormat c0 \<noteq> [] \<and>
          fst (log_SetLevel sys (LogLevel c0) lg) = None \<longrightarrow>
            configureLogger sys c0 lg =
              log_SetFormatter sys (LogFormat c0) (snd (log_SetLevel sys (LogLevel c0) lg)))"
proof (intro conjI impI)
  assume "ReadDir sys (IncludeDir c0) = Inl err"
  with assms show "newConfiguration sys path lg = ((c0, Some err), configureLogger sys c0 lg)"
    by (simp add: newConfiguration_def Let_def)
next
  assume a: "ReadDir sys (IncludeDir c0) = Inr (pre @ bad # post) \<and>
          (\<forall>f\<in>set pre. HasSuffix f ''.toml'' \<longrightarrow> (\<exists>r. load_one sys (IncludeDir c0) f = Inr r)) \<and>
          HasSuffix bad ''.toml'' \<and> load_one sys (IncludeDir c0) bad = Inl err"
  with assms have "newConfiguration sys path lg =
      include_loop sys (pre @ bad # post) c0 (configureLogger sys c0 lg)"
    by (simp add: newConfiguration_def Let_def)
  also from a have "\<dots> =
      ((c0\<lparr>Resource := Resource c0 @ included sys (IncludeDir c0) pre\<rparr>, Some err),
       log_infos sys (IncludeDir c0) (pre @ [bad]) (configureLogger sys c0 lg))"
    by (intro include_loop_fails_after) simp_all
  finally show "newConfiguration sys path lg =
      ((c0\<lparr>Resource := Resource c0 @ included sys (IncludeDir c0) pre\<rparr>, Some err),
       log_infos sys (IncludeDir c0) (pre @ [bad]) (configureLogger sys c0 lg))" .
next
  assume "LogLevel c0 \<noteq> [] \<and> LogFormat c0 \<noteq> [] \<and>
      fst (log_SetLevel sys (LogLevel c0) lg) = None"
  then show "configureLogger sys c0 lg =
      log_SetFormatter sys (LogFormat c0) (snd (log_SetLevel sys (LogLevel c0) lg))"
    by (cases "log_SetLevel sys (LogLevel c0) lg") (simp add: configureLogger_def Let_def)
qed

theorem newConfiguration_not_atomic_witness:
  "newConfiguration (example_system [''a.toml'', ''b.toml'', ''notes.txt'', ''c.toml'', ''a.toml''])
     ''/etc/remco/config'' example_logger =
   ((\<lparr>LogLevel = ''debug'', LogFormat = ''json'', IncludeDir = ''/etc/remco/resource.d'',
      Resource = [\<lparr>Template = [], Backend = []\<rparr>, \<lparr>Template = [()], Backend = []\<rparr>]\<rparr>,
     Some (ErrOther ''toml: syntax error'')),
    \<lparr>Level = ''debug'', Formatter = ''json'',
     entries = [LogInfo ''/etc/remco/resource.d/a.toml'' ''Loading resource configuration'',
                LogInfo ''/etc/remco/resource.d/b.toml'' ''Loading resource configuration'',
                LogInfo ''/etc/remco/resource.d/c.toml'' ''Loading resource configuration'']\<rparr>)"
proof -
  let ?files = "[''a.toml'', ''b.toml'', ''notes.txt'', ''c.toml'', ''a.toml'']"
  have dir: "IncludeDir example_main \<noteq> []" by (simp add: example_main_def)
  have pre: "ReadDir (example_system ?files) (IncludeDir example_main) =
        Inr ([''a.toml'', ''b.toml'', ''notes.txt''] @ ''c.toml'' # [''a.toml'']) \<and>
      (\<forall>f\<in>set [''a.toml'', ''b.toml'', ''notes.txt'']. HasSuffix f ''.toml'' \<longrightarrow>
         (\<exists>r. load_one (example_system ?files) (IncludeDir example_main) f = Inr r)) \<and>
      HasSuffix ''c.toml'' ''.toml'' \<and>
      load_one (example_system ?files) (IncludeDir example_main) ''c.toml''
        = Inl (ErrOther ''toml: syntax error'')"
    by (simp add: example_dir example_suffixes example_load_one)
  have inc: "included (example_system ?files) ''/etc/remco/resource.d''
      [''a.toml'', ''b.toml'', ''notes.txt''] = [\<lparr>Template = [()], Backend = []\<rparr>]"
    by (simp add: example_suffixes example_load_one)
  have inf: "log_infos (example_system ?files) ''/etc/remco/resource.d''
      ([''a.toml'', ''b.toml'', ''notes.txt''] @ [''c.toml''])
      \<lparr>Level = ''debug'', Formatter = ''json'', entries = []\<rparr> =
    \<lparr>Level = ''debug'', Formatter = ''json'',
     entries = [LogInfo ''/etc/remco/resource.d/a.toml'' ''Loading resource configuration'',
                LogInfo ''/etc/remco/resource.d/b.toml'' ''Loading resource configuration'',
                LogInfo ''/etc/remco/resource.d/c.toml'' ''Loading resource configuration'']\<rparr>"
    by (simp add: log_infos_def example_suffixes example_paths example_log_Info)
  from newConfiguration_not_atomic [OF example_main_loaded [of ?files] dir,
      where lg = example_logger
        and pre = "[''a.toml'', ''b.toml'', ''notes.txt'']" and bad = "''c.toml''"
        and post = "[''a.toml'']" and err = "ErrOther ''toml: syntax error''"] pre
  have "newConfiguration (example_system ?files) ''/etc/remco/config'' example_logger =
      ((example_main\<lparr>Resource := Resource example_main @
          included (example_system ?files) (IncludeDir example_main)
            [''a.toml'', ''b.toml'', ''notes.txt'']\<rparr>,
        Some (ErrOther ''toml: syntax error'')),
       log_infos (example_system ?files) (IncludeDir example_main)
         ([''a.toml'', ''b.toml'', ''notes.txt''] @ [''c.toml''])
         (configureLogger (example_system ?files) example_main example_logger))"
    by blast
  then show ?thesis
    unfolding example_dir inc example_configureLogger inf
    by (simp add: example_main_def)
qed

section \<open>Properties of decrypt\<close>

text \<open>
  Claim C7. Whenever \<open>decrypt\<close> returns an error, the string it returns with it is the
  input, unchanged; and it returns an error exactly when \<open>ReadMessage\<close> on the base64
  decoder fails (which is where a base64 error at the start of the data and an OpenPGP
  error show), or the gzip reader cannot be opened, or reading it to the end fails
  (in which case the bytes read so far are dropped).
\<close>

theorem decrypt_error_keeps_input:
  "(snd (decrypt lib data entityList) \<noteq> None \<longrightarrow> fst (decrypt lib data entityList) = data) \<and>
   (snd (decrypt lib data entityList) \<noteq> None \<longleftrightarrow>
      (case openpgp_ReadMessage lib (base64_NewDecoder lib data) entityList of
         Inl err \<Rightarrow> True
       | Inr body \<Rightarrow>
           (case gzip_NewReader lib body of
              Inl err \<Rightarrow> True
            | Inr gzReader \<Rightarrow> snd (ReadAll gzReader) \<noteq> None)))"
  by (auto simp: decrypt_def Let_def split: sum.splits option.splits prod.splits)

theorem decrypt_error_keeps_input_witness:
  "decrypt toy_codecs ''garbage'' ''K''
     = (''garbage'', Some (ErrOther ''illegal base64 data'')) \<and>
   decrypt toy_codecs ''b64:pgp:Kgz:secret'' ''AB''
     = (''b64:pgp:Kgz:secret'', Some (ErrOther ''openpgp: incorrect key'')) \<and>
   decrypt toy_codecs ''b64:pgp:Kplain'' ''K''
     = (''b64:pgp:Kplain'', Some (ErrOther ''gzip: invalid header''))"
proof -
  have use: "decrypt toy_codecs data kr = (data, Some err)"
    if "snd (decrypt toy_codecs data kr) = Some err" for data kr err
  proof -
    from that have "snd (decrypt toy_codecs data kr) \<noteq> None" by simp
    with decrypt_error_keeps_input [of toy_codecs data kr]
    have "fst (decrypt toy_codecs data kr) = data" by blast
    with that show ?thesis by (simp add: prod_eq_iff)
  qed
  have "snd (decrypt toy_codecs ''garbage'' ''K'') = Some (ErrOther ''illegal base64 data'')"
    by code_simp
  moreover
  have "snd (decrypt toy_codecs ''b64:pgp:Kgz:secret'' ''AB'')
      = Some (ErrOther ''openpgp: incorrect key'')"
    by code_simp
  moreover
  have "snd (decrypt toy_codecs ''b64:pgp:Kplain'' ''K'') = Some (ErrOther ''gzip: invalid header'')"
    by code_simp
  ultimately show ?thesis by (intro conjI use)
qed

lemma toy_implements: "implements toy_codecs toy_scheme"
  by (simp add: implements_def toy_codecs_def toy_scheme_def strip_tag_def)

text \<open>
  Claim C8. Let the libraries implement the scheme: base64 decoding, opening of an
  OpenPGP message with a keyring that holds the key, and gzip decompression invert the
  three steps of the sending side, and opening with a keyring that does not hold the key
  fails. Then \<open>decrypt\<close> with a matching keyring, on the base64 encoding of the message
  encrypted to a key whose body is the gzip compression of \<open>P\<close>, returns \<open>P\<close> and no
  error; and with a keyring that does not match it returns an error and the ciphertext
  unchanged.
\<close>

theorem decrypt_inverts_encrypt:
  assumes "implements lib sch"
  shows "(holds_key sch kr pk \<longrightarrow> decrypt lib (encrypt_for sch pk P) kr = (P, None)) \<and>
         (\<not> holds_key sch kr pk \<longrightarrow>
            (\<exists>err. decrypt lib (encrypt_for sch pk P) kr = (encrypt_for sch pk P, Some err)))"
proof (intro conjI impI)
  from assms have b: "base64_NewDecoder lib (encrypt_for sch pk P) =
      (openpgp_encrypt sch pk (gzip_compress sch P), None)"
    by (simp add: implements_def encrypt_for_def)
  {
    assume "holds_key sch kr pk"
    with assms have "openpgp_ReadMessage lib (openpgp_encrypt sch pk (gzip_compress sch P), None) kr
        = Inr (gzip_compress sch P, None)"
      by (simp add: implements_def)
    moreover from assms have "gzip_NewReader lib (gzip_compress sch P, None) = Inr (P, None)"
      by (simp add: implements_def)
    ultimately show "decrypt lib (encrypt_for sch pk P) kr = (P, None)"
      using b by (simp add: decrypt_def ReadAll_def)
  }
  {
    assume "\<not> holds_key sch kr pk"
    with assms obtain err where
      "openpgp_ReadMessage lib (openpgp_encrypt sch pk (gzip_compress sch P), None) kr = Inl err"
      unfolding implements_def by blast
    with b have "decrypt lib (encrypt_for sch pk P) kr = (encrypt_for sch pk P, Some err)"
      by (simp add: decrypt_def)
    then show "\<exists>err. decrypt lib (encrypt_for sch pk P) kr = (encrypt_for sch pk P, Some err)" ..
  }
qed

theorem decrypt_inverts_encrypt_witness:
  "decrypt toy_codecs (encrypt_for toy_scheme CHR ''K'' ''secret'') ''JK'' = (''secret'', None) \<and>
   (\<exists>err. decrypt toy_codecs (encrypt_for toy_scheme CHR ''K'' ''secret'') ''AB''
      = (''b64:pgp:Kgz:secret'', Some err))"
proof -
  have 1: "holds_key toy_scheme ''JK'' CHR ''K''" by (simp add: toy_scheme_def)
  have 2: "\<not> holds_key toy_scheme ''AB'' CHR ''K''" by (simp add: toy_scheme_def)
  have 3: "encrypt_for toy_scheme CHR ''K'' ''secret'' = ''b64:pgp:Kgz:secret''"
    by (simp add: encrypt_for_def toy_scheme_def)
  from decrypt_inverts_encrypt [OF toy_implements, of "''JK''" "CHR ''K''" "''secret''"]
    decrypt_inverts_encrypt [OF toy_implements, of "''AB''" "CHR ''K''" "''secret''"] 1 2
  show ?thesis unfolding 3 by blast
qed


section \<open>Properties of the supervisor\<close>

subsection \<open>The invariant\<close>













subsection \<open>What a schedule can change\<close>











subsection \<open>Return\<close>







lemma finish_Joined: "\<forall>w\<in>set (map finish ws). phase w = Joined"
  by (simp add: finish_def)






end
